theory Spec2Isabelle
  imports Complex_Main
begin

section \<open>Solo Leveling Fitness API: a model of \<open>main.py\<close>\<close>

text \<open>
  The handlers of \<open>main.py\<close> are modelled as functions that take the store handle
  (\<open>None\<close> when the module global \<open>db\<close> is \<open>None\<close>) and return the response or the
  raised error together with the store as the handler leaves it. A write that happens
  before a later \<open>raise\<close> therefore stays visible in the returned store.

  Conventions.
  \<^item> Python integers are \<open>int\<close>.
  \<^item> \<open>datetime.now(timezone.utc)\<close> is the parameter \<open>now\<close>; one handler run reads one
    instant.
  \<^item> Floating point is read as exact real arithmetic: \<open>int(100 * level ** 1.5)\<close> is
    the integer part of the real number \<open>100 * level powr 1.5\<close>, and
    \<open>int(minutes * 1.5)\<close> the integer part of the exact product. Rounding of IEEE
    doubles, and the \<open>OverflowError\<close> of astronomically large operands, are outside the
    model.
\<close>

subsection \<open>Errors\<close>

text \<open>
  \<open>HTTPException(status, detail)\<close> is raised by the handlers. \<open>TypeError\<close> is what
  \<open>int(...)\<close> raises on the complex number that \<open>level ** 1.5\<close> is for a negative
  \<open>level\<close>; no handler catches it.
\<close>

datatype error = HTTPException nat string | TypeError

subsection \<open>Experience needed for the next level\<close>

text \<open>
  \<open>floor_sqrt n\<close> is the integer square root, computed two bits at a time. It makes
  \<open>next_level_exp\<close> executable: for \<open>level \<ge> 0\<close>,
  \<open>100 * level ** 1.5 = sqrt (10000 * level ^ 3)\<close>.
\<close>

fun floor_sqrt :: "nat \<Rightarrow> nat" where
  "floor_sqrt n =
     (if n < 4 then (if n = 0 then 0 else 1)
      else let r = 2 * floor_sqrt (n div 4)
           in if (r + 1) * (r + 1) \<le> n then r + 1 else r)"

declare floor_sqrt.simps [simp del]

text \<open>
  \<^verbatim>\<open>
  def next_level_exp(level: int) -> int:
      # Progression: 100 * level^1.5
      return int(100 * (level ** 1.5))
  \<close>
\<close>

definition next_level_exp :: "int \<Rightarrow> error + int" where
  "next_level_exp level =
     (if level < 0 then Inl TypeError
      else Inr (int (floor_sqrt (nat (10000 * level ^ 3)))))"

text \<open>
  The formula as the specification writes it, \<open>required(L) = floor(100 * L^1.5)\<close>, over
  the reals. Lemma \<open>next_level_exp_required\<close> below shows that \<open>next_level_exp\<close> computes
  it for every \<open>level \<ge> 0\<close>.
\<close>

definition required :: "int \<Rightarrow> int" where
  "required L = \<lfloor>100 * (real_of_int L) powr (3 / 2)\<rfloor>"

lemma floor_sqrt_bounds:
  "floor_sqrt n * floor_sqrt n \<le> n \<and> n < (floor_sqrt n + 1) * (floor_sqrt n + 1)"
proof (induction n rule: floor_sqrt.induct)
  case (1 n)
  show ?case
  proof (cases "n < 4")
    case True
    then show ?thesis by (subst (1 2 3 4) floor_sqrt.simps) auto
  next
    case False
    define s where "s = floor_sqrt (n div 4)"
    have ih: "s * s \<le> n div 4 \<and> n div 4 < (s + 1) * (s + 1)"
      using "1.IH" False by (simp add: s_def)
    have lo: "(2 * s) * (2 * s) \<le> n"
    proof -
      have "4 * (s * s) \<le> 4 * (n div 4)" using ih by simp
      also have "\<dots> \<le> n" by simp
      finally show ?thesis by (simp add: algebra_simps)
    qed
    have hi: "n < (2 * s + 2) * (2 * s + 2)"
    proof -
      have "n div 4 + 1 \<le> (s + 1) * (s + 1)" using ih by simp
      then have "4 * (n div 4) + 4 \<le> 4 * ((s + 1) * (s + 1))" by simp
      moreover have "n < 4 * (n div 4) + 4" by presburger
      ultimately show ?thesis by (simp add: algebra_simps)
    qed
    have eq: "floor_sqrt n = (if (2 * s + 1) * (2 * s + 1) \<le> n then 2 * s + 1 else 2 * s)"
      using False by (subst floor_sqrt.simps) (simp add: s_def Let_def)
    show ?thesis
    proof (cases "(2 * s + 1) * (2 * s + 1) \<le> n")
      case True
      then show ?thesis using hi eq by (simp add: algebra_simps)
    next
      case False
      then show ?thesis using lo eq by (simp add: algebra_simps)
    qed
  qed
qed

lemma floor_sqrt_ge: "a * a \<le> n \<Longrightarrow> a \<le> floor_sqrt n"
proof (rule ccontr)
  assume a: "a * a \<le> n" and "\<not> a \<le> floor_sqrt n"
  then have h: "floor_sqrt n + 1 \<le> a" by simp
  have "(floor_sqrt n + 1) * (floor_sqrt n + 1) \<le> a * a"
    by (rule mult_le_mono [OF h h])
  with a floor_sqrt_bounds [of n] show False by linarith
qed

lemma floor_sqrt_real: "\<lfloor>sqrt (real n)\<rfloor> = int (floor_sqrt n)"
proof (rule floor_unique)
  let ?s = "floor_sqrt n"
  have "real (?s * ?s) \<le> real n"
    using floor_sqrt_bounds [of n] by (simp only: of_nat_le_iff)
  then have "(real ?s)\<^sup>2 \<le> real n" by (simp add: power2_eq_square)
  then have "real ?s \<le> sqrt (real n)" by (rule real_le_rsqrt)
  then show "of_int (int ?s) \<le> sqrt (real n)" by simp
  have "real n < real ((?s + 1) * (?s + 1))"
    using floor_sqrt_bounds [of n] by (simp only: of_nat_less_iff)
  then have "real n < (real ?s + 1)\<^sup>2" by (simp add: power2_eq_square algebra_simps)
  then have "sqrt (real n) < real ?s + 1"
    by (intro real_less_lsqrt) simp_all
  then show "sqrt (real n) < of_int (int ?s) + 1" by simp
qed

lemma powr_three_halves:
  assumes "0 \<le> L"
  shows "100 * (real_of_int L) powr (3 / 2) = sqrt (real (nat (10000 * L ^ 3)))"
proof -
  have "(real_of_int L) powr (3 / 2) = ((real_of_int L) powr 3) powr (1 / 2)"
    by (simp add: powr_powr)
  also have "\<dots> = sqrt ((real_of_int L) powr 3)"
    by (simp add: powr_half_sqrt)
  also have "(real_of_int L) powr 3 = (real_of_int L) ^ 3"
    using assms by (cases "L = 0") (simp_all add: powr_numeral)
  finally have "100 * (real_of_int L) powr (3 / 2) = sqrt 10000 * sqrt ((real_of_int L) ^ 3)"
    by simp
  also have "\<dots> = sqrt (10000 * (real_of_int L) ^ 3)"
    by (simp only: real_sqrt_mult)
  also have "10000 * (real_of_int L) ^ 3 = real (nat (10000 * L ^ 3))"
    using assms by simp
  finally show ?thesis .
qed

lemma required_code:
  "0 \<le> L \<Longrightarrow> required L = int (floor_sqrt (nat (10000 * L ^ 3)))"
  unfolding required_def by (simp only: powr_three_halves floor_sqrt_real)

lemma next_level_exp_required:
  "0 \<le> level \<Longrightarrow> next_level_exp level = Inr (required level)"
  by (simp add: next_level_exp_def required_code)

lemma required_ge_100: 
  assumes "1 \<le> L" shows "100 \<le> required L"
proof -
  have "1 \<le> L ^ 3" using assms by simp
  then have "100 * 100 \<le> nat (10000 * L ^ 3)" by simp
  then have "100 \<le> floor_sqrt (nat (10000 * L ^ 3))" by (rule floor_sqrt_ge)
  then show ?thesis using assms by (simp add: required_code)
qed




lemma required_1: "required 1 = 100"
  by (simp add: required_code floor_sqrt.simps)

lemma next_level_exp_Inr_ge:
  assumes "next_level_exp level = Inr r" and "1 \<le> level"
  shows "100 \<le> r"
  using assms required_ge_100 [of level] by (simp add: next_level_exp_required)

lemma next_level_exp_Inr_0:
  assumes "next_level_exp level = Inr r" and "\<not> 1 \<le> level"
  shows "r = 0 \<and> level = 0"
proof -
  have "level = 0" using assms by (cases "level < 0") (simp_all add: next_level_exp_def)
  then show ?thesis using assms by (simp add: next_level_exp_def floor_sqrt.simps)
qed

lemma level_up_decreases:
  assumes "next_level_exp level = Inr r" and "r \<le> new_exp"
  shows "nat (new_exp - r) + (if level + 1 \<le> 0 then 1 else 0)
           < nat new_exp + (if level \<le> 0 then 1 else (0::nat))"
proof (cases "1 \<le> level")
  case True
  from next_level_exp_Inr_ge [OF assms(1) True] assms(2) True show ?thesis by simp
next
  case False
  from next_level_exp_Inr_0 [OF assms(1) False] assms(2) show ?thesis by simp
qed

subsection \<open>The level-up loops\<close>

text \<open>
  Each of the three handlers that award EXP carries its own copy of the loop
  \<^verbatim>\<open>
  leveled_up = False
  while new_exp >= next_level_exp(level):
      new_exp -= next_level_exp(level)
      level += 1
      leveled_up = True
  \<close>
  One recursive function per copy; the result is \<open>(new_exp, level, leveled_up)\<close> as
  the loop leaves them, or the error \<open>next_level_exp\<close> raised. The measure of the
  termination proofs: \<open>new_exp\<close> drops by at least 100 from level 1 on, and level 0
  (threshold 0) is left after one step.
\<close>

function daily_checkin_loop :: "int \<Rightarrow> int \<Rightarrow> bool \<Rightarrow> error + (int \<times> int \<times> bool)" where
  "daily_checkin_loop new_exp level leveled_up =
     (case next_level_exp level of
        Inl e \<Rightarrow> Inl e
      | Inr r \<Rightarrow>
          if new_exp \<ge> r then daily_checkin_loop (new_exp - r) (level + 1) True
          else Inr (new_exp, level, leveled_up))"
  by pat_completeness auto
termination
  by (relation "measure (\<lambda>(new_exp, level, leveled_up). nat new_exp + (if level \<le> 0 then 1 else 0))")
     (simp_all add: level_up_decreases)

function log_workout_loop :: "int \<Rightarrow> int \<Rightarrow> bool \<Rightarrow> error + (int \<times> int \<times> bool)" where
  "log_workout_loop new_exp level leveled_up =
     (case next_level_exp level of
        Inl e \<Rightarrow> Inl e
      | Inr r \<Rightarrow>
          if new_exp \<ge> r then log_workout_loop (new_exp - r) (level + 1) True
          else Inr (new_exp, level, leveled_up))"
  by pat_completeness auto
termination
  by (relation "measure (\<lambda>(new_exp, level, leveled_up). nat new_exp + (if level \<le> 0 then 1 else 0))")
     (simp_all add: level_up_decreases)

function complete_quest_loop :: "int \<Rightarrow> int \<Rightarrow> bool \<Rightarrow> error + (int \<times> int \<times> bool)" where
  "complete_quest_loop new_exp level leveled_up =
     (case next_level_exp level of
        Inl e \<Rightarrow> Inl e
      | Inr r \<Rightarrow>
          if new_exp \<ge> r then complete_quest_loop (new_exp - r) (level + 1) True
          else Inr (new_exp, level, leveled_up))"
  by pat_completeness auto
termination
  by (relation "measure (\<lambda>(new_exp, level, leveled_up). nat new_exp + (if level \<le> 0 then 1 else 0))")
     (simp_all add: level_up_decreases)

declare daily_checkin_loop.simps [simp del]
declare log_workout_loop.simps [simp del]
declare complete_quest_loop.simps [simp del]




lemma sum_int_split_first:
  fixes f :: "int \<Rightarrow> int"
  assumes "a < b"
  shows "(\<Sum>L = a..<b. f L) = f a + (\<Sum>L = a + 1..<b. f L)"
proof -
  have "{a..<b} = insert a {a + 1..<b}" using assms by auto
  then show ?thesis by simp
qed

lemma daily_checkin_loop_spec:
  assumes "1 \<le> level" and "0 \<le> new_exp"
  shows "\<exists>e' l' u'. daily_checkin_loop new_exp level leveled_up = Inr (e', l', u')
           \<and> 0 \<le> e' \<and> e' < required l' \<and> level \<le> l'
           \<and> new_exp = e' + (\<Sum>L = level..<l'. required L)
           \<and> 100 * (l' - level) \<le> new_exp
           \<and> u' = (leveled_up \<or> level < l')"
  using assms
proof (induction new_exp level leveled_up rule: daily_checkin_loop.induct)
  case (1 new_exp level leveled_up)
  have nle: "next_level_exp level = Inr (required level)"
    using "1.prems" by (simp add: next_level_exp_required)
  show ?case
  proof (cases "required level \<le> new_exp")
    case False
    then show ?thesis
      using "1.prems" nle by (subst daily_checkin_loop.simps) simp
  next
    case True
    have r: "100 \<le> required level" using "1.prems" by (simp add: required_ge_100)
    have "1 \<le> level + 1" "0 \<le> new_exp - required level"
      using "1.prems" True by simp_all
    from "1.IH" [OF nle True this]
    obtain e' l' u' where
      run: "daily_checkin_loop (new_exp - required level) (level + 1) True = Inr (e', l', u')"
      and e': "0 \<le> e'" "e' < required l'" and l': "level + 1 \<le> l'"
      and sum: "new_exp - required level = e' + (\<Sum>L = level + 1..<l'. required L)"
      and cnt: "100 * (l' - (level + 1)) \<le> new_exp - required level"
      and u': "u' = True"
      by auto
    have split: "(\<Sum>L = level..<l'. required L) = required level + (\<Sum>L = level + 1..<l'. required L)"
      using l' by (simp add: sum_int_split_first)
    have "daily_checkin_loop new_exp level leveled_up = Inr (e', l', u')"
      using True nle run by (subst daily_checkin_loop.simps) simp
    moreover have "new_exp = e' + (\<Sum>L = level..<l'. required L)"
      using sum split by simp
    moreover have "100 * (l' - level) \<le> new_exp" using cnt r by simp
    ultimately show ?thesis using e' l' u' by auto
  qed
qed

lemma log_workout_loop_eq:
  "log_workout_loop new_exp level leveled_up = daily_checkin_loop new_exp level leveled_up"
proof (induction new_exp level leveled_up rule: daily_checkin_loop.induct)
  case (1 new_exp level leveled_up)
  show ?case
  proof (cases "next_level_exp level")
    case (Inl e)
    then show ?thesis
      by (subst log_workout_loop.simps, subst daily_checkin_loop.simps) simp
  next
    case (Inr r)
    show ?thesis
    proof (cases "r \<le> new_exp")
      case True
      with Inr "1.IH" [OF Inr True] show ?thesis
        by (subst log_workout_loop.simps, subst daily_checkin_loop.simps) simp
    next
      case False
      with Inr show ?thesis
        by (subst log_workout_loop.simps, subst daily_checkin_loop.simps) simp
    qed
  qed
qed

lemma complete_quest_loop_eq:
  "complete_quest_loop new_exp level leveled_up = daily_checkin_loop new_exp level leveled_up"
proof (induction new_exp level leveled_up rule: daily_checkin_loop.induct)
  case (1 new_exp level leveled_up)
  show ?case
  proof (cases "next_level_exp level")
    case (Inl e)
    then show ?thesis
      by (subst complete_quest_loop.simps, subst daily_checkin_loop.simps) simp
  next
    case (Inr r)
    show ?thesis
    proof (cases "r \<le> new_exp")
      case True
      with Inr "1.IH" [OF Inr True] show ?thesis
        by (subst complete_quest_loop.simps, subst daily_checkin_loop.simps) simp
    next
      case False
      with Inr show ?thesis
        by (subst complete_quest_loop.simps, subst daily_checkin_loop.simps) simp
    qed
  qed
qed



subsection \<open>Dates and timestamps\<close>

text \<open>
  A \<open>datetime.date\<close> is its three fields. \<open>toordinal\<close> is the proleptic Gregorian day
  number of Python's \<open>datetime\<close> module, so that \<open>(a - b).days\<close> is
  \<open>toordinal a - toordinal b\<close>, and \<open>isoformat\<close> is \<open>"%04d-%02d-%02d"\<close>. A timestamp is a
  date and the microseconds since midnight; all timestamps are UTC.
\<close>

record date =
  year :: nat
  month :: nat
  day :: nat

record datetime =
  dt_date :: date
  dt_micros :: nat

definition is_leap :: "nat \<Rightarrow> bool" where
  "is_leap y = (y mod 4 = 0 \<and> (y mod 100 \<noteq> 0 \<or> y mod 400 = 0))"

definition days_before_year :: "nat \<Rightarrow> int" where
  "days_before_year y =
     (let y1 = int y - 1 in y1 * 365 + y1 div 4 - y1 div 100 + y1 div 400)"

definition days_in_month :: "nat \<Rightarrow> int list" where
  "days_in_month y =
     [31, if is_leap y then 29 else 28, 31, 30, 31, 30, 31, 31, 30, 31, 30, 31]"

definition days_before_month :: "nat \<Rightarrow> nat \<Rightarrow> int" where
  "days_before_month y m = sum_list (take (m - 1) (days_in_month y))"

definition toordinal :: "date \<Rightarrow> int" where
  "toordinal d = days_before_year (year d) + days_before_month (year d) (month d) + int (day d)"

fun decimal :: "nat \<Rightarrow> string" where
  "decimal n =
     (if n < 10 then [''0123456789'' ! n]
      else decimal (n div 10) @ [''0123456789'' ! (n mod 10)])"

declare decimal.simps [simp del]

definition zero_pad :: "nat \<Rightarrow> string \<Rightarrow> string" where
  "zero_pad w s = replicate (w - length s) (CHR ''0'') @ s"

definition isoformat :: "date \<Rightarrow> string" where
  "isoformat d =
     zero_pad 4 (decimal (year d)) @ ''-'' @ zero_pad 2 (decimal (month d)) @ ''-''
       @ zero_pad 2 (decimal (day d))"

text \<open>
  \<^verbatim>\<open>
  def today_str() -> str:
      return datetime.now(timezone.utc).date().isoformat()
  \<close>
\<close>

definition today_str :: "datetime \<Rightarrow> string" where
  "today_str now = isoformat (dt_date now)"

subsection \<open>Documents and the store\<close>

text \<open>
  The four collections hold the documents the handlers insert, in insertion order. Every
  document gets its \<open>_id\<close> from the store on insertion; the model numbers them with the
  counter \<open>next_id\<close>. An \<open>ObjectId\<close> is the number its 24 hexadecimal digits spell.
  Hunter documents are only ever inserted by \<open>create_hunter\<close>, with every field set,
  so the defaults of \<open>hunter.get("exp", 0)\<close> and its like never apply and a hunter is a
  record; likewise for quests, which only \<open>get_daily_quests\<close> inserts.
\<close>

record hunter =
  h_id :: nat
  h_name :: string
  h_title :: "string option"
  h_level :: int
  h_exp :: int
  h_streak :: int
  h_last_checkin :: "datetime option"
  h_created_at :: datetime
  h_updated_at :: datetime

record workout =
  w_id :: nat
  w_user_id :: string
  w_workout_type :: string
  w_minutes :: int
  w_difficulty :: string
  w_exp_awarded :: int
  w_created_at :: datetime
  w_updated_at :: datetime

record quest =
  q_id :: nat
  q_user_id :: string
  q_date :: string
  q_title :: string
  q_description :: string
  q_exp_reward :: int
  q_completed :: bool
  q_created_at :: datetime
  q_updated_at :: datetime

record checkin =
  c_id :: nat
  c_user_id :: string
  c_date :: string
  c_streak_after :: int
  c_created_at :: datetime
  c_updated_at :: datetime

record database =
  hunter_coll :: "hunter list"
  workout_coll :: "workout list"
  quest_coll :: "quest list"
  checkin_coll :: "checkin list"
  next_id :: nat

definition find_one :: "('a \<Rightarrow> bool) \<Rightarrow> 'a list \<Rightarrow> 'a option" where
  "find_one p docs = List.find p docs"

text \<open>\<open>update_one\<close> changes the first document that matches, and only that one.\<close>

fun update_one :: "('a \<Rightarrow> bool) \<Rightarrow> ('a \<Rightarrow> 'a) \<Rightarrow> 'a list \<Rightarrow> 'a list" where
  "update_one p f [] = []"
| "update_one p f (d # docs) = (if p d then f d # docs else d # update_one p f docs)"

text \<open>
  \<open>ObjectId(s)\<close> of \<open>bson\<close>, by its documented contract, accepts a string of 24
  hexadecimal digits and raises \<open>InvalidId\<close> (here \<open>None\<close>) on any other string. Upper
  and lower case digits spell the same identifier.
\<close>

definition hex_digit :: "char \<Rightarrow> nat option" where
  "hex_digit c =
     map_of (zip ''0123456789abcdefABCDEF''
       [0, 1, 2, 3, 4, 5, 6, 7, 8, 9, 10, 11, 12, 13, 14, 15, 10, 11, 12, 13, 14, 15]) c"

fun hex_value :: "nat \<Rightarrow> string \<Rightarrow> nat option" where
  "hex_value acc [] = Some acc"
| "hex_value acc (c # cs) =
     (case hex_digit c of None \<Rightarrow> None | Some v \<Rightarrow> hex_value (16 * acc + v) cs)"

definition ObjectId :: "string \<Rightarrow> nat option" where
  "ObjectId s = (if length s = 24 then hex_value 0 s else None)"

subsection \<open>Requests and responses\<close>

text \<open>
  A JSON response is the dictionary the handler returns, as the list of its items.
  The request models of \<open>main.py\<close>:
  \<^verbatim>\<open>
  class LogWorkoutRequest(BaseModel):
      user_id: str
      workout_type: str
      minutes: int
      difficulty: str = "normal"  # easy | normal | hard

  class CompleteQuestRequest(BaseModel):
      user_id: str
      date: Optional[str] = None  # default today
  \<close>
\<close>

datatype json = JNull | JStr string | JInt int | JBool bool

type_synonym response = "(string \<times> json) list"

record CreateHunterRequest =
  ch_name :: string
  ch_title :: "string option"

record LogWorkoutRequest =
  lw_user_id :: string
  lw_workout_type :: string
  lw_minutes :: int
  lw_difficulty :: string

record CompleteQuestRequest =
  cq_user_id :: string
  cq_date :: "string option"

text \<open>
  What the framework does with the body of \<open>POST /api/workouts\<close> before it calls the
  handler: the body is checked against the fields of \<open>LogWorkoutRequest\<close> (three
  required fields of the declared types, \<open>difficulty\<close> defaulting to \<open>"normal"\<close>), and a
  body that does not fit is answered with status 422 without the handler running. The
  fields carry no constraint beyond their type. (The conversions the validation library
  applies to values of another JSON type, such as a numeric string for \<open>minutes\<close>, are
  not modelled: such a body is rejected here.)
\<close>

definition validate_LogWorkoutRequest :: "(string \<rightharpoonup> json) \<Rightarrow> LogWorkoutRequest option" where
  "validate_LogWorkoutRequest body =
     (case (body ''user_id'', body ''workout_type'', body ''minutes'') of
        (Some (JStr u), Some (JStr t), Some (JInt m)) \<Rightarrow>
          (case body ''difficulty'' of
             None \<Rightarrow> Some \<lparr>lw_user_id = u, lw_workout_type = t, lw_minutes = m,
                            lw_difficulty = ''normal''\<rparr>
           | Some (JStr d) \<Rightarrow> Some \<lparr>lw_user_id = u, lw_workout_type = t, lw_minutes = m,
                                    lw_difficulty = d\<rparr>
           | Some _ \<Rightarrow> None)
      | _ \<Rightarrow> None)"

text \<open>
  The field constraints that \<open>schemas.py\<close> declares for the documents of the collections
  \<open>hunter\<close> and \<open>workout\<close>:
  \<^verbatim>\<open>
  level: int = Field(1, ge=1, ...)     exp: int = Field(0, ge=0, ...)
  streak: int = Field(0, ge=0, ...)
  minutes: int = Field(..., ge=1, le=300, ...)
  exp_awarded: int = Field(0, ge=0, ...)
  \<close>
  \<open>main.py\<close> does not import these models.
\<close>

definition Hunter_schema :: "hunter \<Rightarrow> bool" where
  "Hunter_schema h = (1 \<le> h_level h \<and> 0 \<le> h_exp h \<and> 0 \<le> h_streak h)"

definition Workout_schema :: "workout \<Rightarrow> bool" where
  "Workout_schema w = (1 \<le> w_minutes w \<and> w_minutes w \<le> 300 \<and> 0 \<le> w_exp_awarded w)"

text \<open>
  The invariant the specification states for a hunter (section 3): the level is at least 1
  and the experience lies in \<open>[0, required(level))\<close>.
\<close>

definition hunter_inv :: "hunter \<Rightarrow> bool" where
  "hunter_inv h = (1 \<le> h_level h \<and> 0 \<le> h_exp h \<and> h_exp h < required (h_level h))"

subsection \<open>The handlers\<close>

text \<open>
  Every handler starts with
  \<^verbatim>\<open>
  if db is None:
      raise HTTPException(500, "Database not configured")
  \<close>
  and looks a hunter up with
  \<^verbatim>\<open>
  try:
      hunter = db["hunter"].find_one({"_id": ObjectId(user_id)})
  except Exception:
      raise HTTPException(400, "Invalid user id")
  if not hunter:
      raise HTTPException(404, "Hunter not found")
  \<close>
\<close>

definition create_hunter ::
  "datetime \<Rightarrow> database option \<Rightarrow> CreateHunterRequest \<Rightarrow> (error + hunter) \<times> database option" where
  "create_hunter now db payload =
     (case db of
        None \<Rightarrow> (Inl (HTTPException 500 ''Database not configured''), None)
      | Some store \<Rightarrow>
          let hunter = \<lparr>h_id = next_id store, h_name = ch_name payload,
                          h_title = ch_title payload, h_level = 1, h_exp = 0, h_streak = 0,
                          h_last_checkin = None, h_created_at = now, h_updated_at = now\<rparr>
          in (Inr hunter,
              Some (store\<lparr>hunter_coll := hunter_coll store @ [hunter],
                           next_id := next_id store + 1\<rparr>)))"

text \<open>
  \<open>daily_checkin\<close> (lines 115 to 187). The streak:
  \<^verbatim>\<open>
  new_streak = 1
  if last_checkin:
      if (datetime.now(timezone.utc).date() - last_checkin.date()).days == 1:
          new_streak = hunter.get("streak", 0) + 1
  exp_gain = 10 + min(new_streak, 20)
  \<close>
\<close>

definition daily_checkin ::
  "datetime \<Rightarrow> database option \<Rightarrow> string \<Rightarrow> (error + response) \<times> database option" where
  "daily_checkin now db user_id =
     (case db of
        None \<Rightarrow> (Inl (HTTPException 500 ''Database not configured''), None)
      | Some store \<Rightarrow>
         (case ObjectId user_id of
            None \<Rightarrow> (Inl (HTTPException 400 ''Invalid user id''), db)
          | Some oid \<Rightarrow>
             (case find_one (\<lambda>h. h_id h = oid) (hunter_coll store) of
                None \<Rightarrow> (Inl (HTTPException 404 ''Hunter not found''), db)
              | Some hunter \<Rightarrow>
                 let today = today_str now;
                     last_checkin = h_last_checkin hunter;
                     last_date = map_option (\<lambda>t. isoformat (dt_date t)) last_checkin
                 in if last_date = Some today then
                      (Inr [(''message'', JStr ''Already checked in today''),
                            (''streak'', JInt (h_streak hunter)),
                            (''level'', JInt (h_level hunter)),
                            (''exp'', JInt (h_exp hunter))], db)
                    else
                      let new_streak =
                            (case last_checkin of
                               None \<Rightarrow> 1
                             | Some t \<Rightarrow>
                                 if toordinal (dt_date now) - toordinal (dt_date t) = 1
                                 then h_streak hunter + 1 else 1);
                          exp_gain = 10 + min new_streak 20
                      in (case daily_checkin_loop (h_exp hunter + exp_gain) (h_level hunter) False of
                            Inl e \<Rightarrow> (Inl e, db)
                          | Inr (new_exp, level, leveled_up) \<Rightarrow>
                              (Inr [(''message'', JStr ''Check-in complete''),
                                    (''exp_gain'', JInt exp_gain),
                                    (''streak'', JInt new_streak),
                                    (''level'', JInt level),
                                    (''exp'', JInt new_exp),
                                    (''leveled_up'', JBool leveled_up)],
                               Some (store\<lparr>
                                 hunter_coll :=
                                   update_one (\<lambda>h. h_id h = h_id hunter)
                                     (\<lambda>h. h\<lparr>h_exp := new_exp, h_level := level,
                                            h_last_checkin := Some now, h_streak := new_streak,
                                            h_updated_at := now\<rparr>)
                                     (hunter_coll store),
                                 checkin_coll := checkin_coll store @
                                   [\<lparr>c_id = next_id store, c_user_id = user_id, c_date = today,
                                     c_streak_after = new_streak, c_created_at = now,
                                     c_updated_at = now\<rparr>],
                                 next_id := next_id store + 1\<rparr>))))))"

text \<open>
  \<open>log_workout\<close> (lines 190 to 236). The EXP of a workout:
  \<^verbatim>\<open>
  diff_mult = {"easy": 1.0, "normal": 1.5, "hard": 2.0}.get(payload.difficulty, 1.5)
  exp_gain = int(payload.minutes * diff_mult)
  \<close>
  \<open>int\<close> of a float drops the fraction, that is, it rounds towards zero.
\<close>

definition diff_mult :: "string \<Rightarrow> real" where
  "diff_mult difficulty =
     (if difficulty = ''easy'' then 1
      else if difficulty = ''normal'' then 3 / 2
      else if difficulty = ''hard'' then 2
      else 3 / 2)"

definition int_of_float :: "real \<Rightarrow> int" where
  "int_of_float x = (if 0 \<le> x then \<lfloor>x\<rfloor> else \<lceil>x\<rceil>)"

definition log_workout ::
  "datetime \<Rightarrow> database option \<Rightarrow> LogWorkoutRequest \<Rightarrow> (error + response) \<times> database option" where
  "log_workout now db payload =
     (case db of
        None \<Rightarrow> (Inl (HTTPException 500 ''Database not configured''), None)
      | Some store \<Rightarrow>
         let exp_gain = int_of_float (of_int (lw_minutes payload) * diff_mult (lw_difficulty payload))
         in (case ObjectId (lw_user_id payload) of
               None \<Rightarrow> (Inl (HTTPException 400 ''Invalid user id''), db)
             | Some oid \<Rightarrow>
                (case find_one (\<lambda>h. h_id h = oid) (hunter_coll store) of
                   None \<Rightarrow> (Inl (HTTPException 404 ''Hunter not found''), db)
                 | Some hunter \<Rightarrow>
                    (case log_workout_loop (h_exp hunter + exp_gain) (h_level hunter) False of
                       Inl e \<Rightarrow> (Inl e, db)
                     | Inr (new_exp, level, leveled_up) \<Rightarrow>
                         (Inr [(''message'', JStr ''Workout logged''),
                               (''exp_gain'', JInt exp_gain),
                               (''level'', JInt level),
                               (''exp'', JInt new_exp),
                               (''leveled_up'', JBool leveled_up)],
                          Some (store\<lparr>
                            hunter_coll :=
                              update_one (\<lambda>h. h_id h = h_id hunter)
                                (\<lambda>h. h\<lparr>h_exp := new_exp, h_level := level, h_updated_at := now\<rparr>)
                                (hunter_coll store),
                            workout_coll := workout_coll store @
                              [\<lparr>w_id = next_id store, w_user_id = lw_user_id payload,
                                w_workout_type = lw_workout_type payload,
                                w_minutes = lw_minutes payload,
                                w_difficulty = lw_difficulty payload,
                                w_exp_awarded = exp_gain, w_created_at = now,
                                w_updated_at = now\<rparr>],
                            next_id := next_id store + 1\<rparr>))))))"

text \<open>
  The route \<open>POST /api/workouts\<close>: the framework validates the body, then calls the
  handler. \<open>RequestValidationError\<close> is answered with status 422.
\<close>

datatype route_error = RequestValidationError | Raised error

definition post_api_workouts ::
  "datetime \<Rightarrow> database option \<Rightarrow> (string \<rightharpoonup> json) \<Rightarrow> (route_error + response) \<times> database option" where
  "post_api_workouts now db body =
     (case validate_LogWorkoutRequest body of
        None \<Rightarrow> (Inl RequestValidationError, db)
      | Some payload \<Rightarrow>
          (case log_workout now db payload of
             (Inl e, db') \<Rightarrow> (Inl (Raised e), db')
           | (Inr r, db') \<Rightarrow> (Inr r, db')))"

text \<open>
  \<open>get_daily_quests\<close> (lines 239 to 278). \<open>random.choice(base)\<close> is the entry of \<open>base\<close>
  at the index the generator draws, the parameter \<open>draw\<close> reduced below the length.
\<close>

definition base :: "(string \<times> int) list" where
  "base = [(''Do 100 Push-ups'', 75), (''Run 3 km'', 90), (''Stretch for 10 minutes'', 40),
           (''Hold a 2-minute plank'', 60)]"

definition get_daily_quests ::
  "datetime \<Rightarrow> nat \<Rightarrow> database option \<Rightarrow> string \<Rightarrow> (error + quest) \<times> database option" where
  "get_daily_quests now draw db user_id =
     (case db of
        None \<Rightarrow> (Inl (HTTPException 500 ''Database not configured''), None)
      | Some store \<Rightarrow>
         (case ObjectId user_id of
            None \<Rightarrow> (Inl (HTTPException 400 ''Invalid user id''), db)
          | Some oid \<Rightarrow>
             (case find_one (\<lambda>h. h_id h = oid) (hunter_coll store) of
                None \<Rightarrow> (Inl (HTTPException 404 ''Hunter not found''), db)
              | Some user \<Rightarrow>
                 let today = today_str now
                 in (case find_one (\<lambda>q. q_user_id q = user_id \<and> q_date q = today) (quest_coll store) of
                       Some quest \<Rightarrow> (Inr quest, db)
                     | None \<Rightarrow>
                         (case base ! (draw mod length base) of
                            (title, reward) \<Rightarrow>
                              let quest = \<lparr>q_id = next_id store, q_user_id = user_id, q_date = today,
                                    q_title = title,
                                    q_description = ''Complete the task to earn EXP and keep your streak.'',
                                    q_exp_reward = reward, q_completed = False,
                                    q_created_at = now, q_updated_at = now\<rparr>
                              in (Inr quest,
                                  Some (store\<lparr>quest_coll := quest_coll store @ [quest],
                                               next_id := next_id store + 1\<rparr>)))))))"

text \<open>
  \<open>complete_quest\<close> (lines 281 to 327). The quest is written before the hunter is read:
  \<^verbatim>\<open>
  today = payload.date or today_str()
  quest = db["quest"].find_one({"user_id": payload.user_id, "date": today})
  if not quest:
      raise HTTPException(404, "Quest not found for today")
  if quest.get("completed"):
      return {"message": "Quest already completed", "reward": quest.get("exp_reward", 0)}
  db["quest"].update_one({"_id": quest["_id"]},
      {"$set": {"completed": True, "updated_at": datetime.now(timezone.utc)}})
  # Award EXP
  try: hunter = db["hunter"].find_one({"_id": ObjectId(payload.user_id)}) ...
  \<close>
  \<open>payload.date or today_str()\<close> takes today's date for \<open>None\<close> and for the empty string.
\<close>

definition quest_date :: "datetime \<Rightarrow> CompleteQuestRequest \<Rightarrow> string" where
  "quest_date now payload =
     (case cq_date payload of
        None \<Rightarrow> today_str now
      | Some d \<Rightarrow> if d = [] then today_str now else d)"

definition complete_quest ::
  "datetime \<Rightarrow> database option \<Rightarrow> CompleteQuestRequest \<Rightarrow> (error + response) \<times> database option" where
  "complete_quest now db payload =
     (case db of
        None \<Rightarrow> (Inl (HTTPException 500 ''Database not configured''), None)
      | Some store \<Rightarrow>
         let today = quest_date now payload
         in (case find_one (\<lambda>q. q_user_id q = cq_user_id payload \<and> q_date q = today)
                     (quest_coll store) of
               None \<Rightarrow> (Inl (HTTPException 404 ''Quest not found for today''), db)
             | Some quest \<Rightarrow>
                if q_completed quest then
                  (Inr [(''message'', JStr ''Quest already completed''),
                        (''reward'', JInt (q_exp_reward quest))], db)
                else
                  let store1 = store\<lparr>quest_coll :=
                        update_one (\<lambda>q. q_id q = q_id quest)
                          (\<lambda>q. q\<lparr>q_completed := True, q_updated_at := now\<rparr>)
                          (quest_coll store)\<rparr>
                  in (case ObjectId (cq_user_id payload) of
                        None \<Rightarrow> (Inl (HTTPException 400 ''Invalid user id''), Some store1)
                      | Some oid \<Rightarrow>
                         (case find_one (\<lambda>h. h_id h = oid) (hunter_coll store1) of
                            None \<Rightarrow> (Inl (HTTPException 404 ''Hunter not found''), Some store1)
                          | Some hunter \<Rightarrow>
                             let reward = q_exp_reward quest
                             in (case complete_quest_loop (h_exp hunter + reward) (h_level hunter) False of
                                   Inl e \<Rightarrow> (Inl e, Some store1)
                                 | Inr (new_exp, level, leveled_up) \<Rightarrow>
                                     (Inr [(''message'', JStr ''Quest completed''),
                                           (''reward'', JInt reward),
                                           (''level'', JInt level),
                                           (''exp'', JInt new_exp),
                                           (''leveled_up'', JBool leveled_up)],
                                      Some (store1\<lparr>hunter_coll :=
                                        update_one (\<lambda>h. h_id h = h_id hunter)
                                          (\<lambda>h. h\<lparr>h_exp := new_exp, h_level := level,
                                                 h_updated_at := now\<rparr>)
                                          (hunter_coll store1)\<rparr>)))))))"

subsection \<open>Facts about the store and the loops\<close>

lemma find_one_Some:
  "find_one p docs = Some d \<Longrightarrow> p d \<and> d \<in> set docs"
  by (auto simp: find_one_def find_Some_iff)

lemma find_one_update_one_same:
  assumes "find_one p docs = Some d" and "p (f d)"
  shows "find_one p (update_one p f docs) = Some (f d)"
  using assms by (induction docs) (auto simp: find_one_def split: if_splits)

lemma find_one_update_one_key:
  assumes "distinct (map k docs)" and "find_one p docs = Some d" and "p (f d)"
  shows "find_one p (update_one (\<lambda>x. k x = k d) f docs) = Some (f d)"
  using assms
proof (induction docs)
  case Nil
  then show ?case by (simp add: find_one_def)
next
  case (Cons x docs)
  show ?case
  proof (cases "p x")
    case True
    with Cons.prems have "x = d" by (simp add: find_one_def)
    with Cons.prems show ?thesis by (simp add: find_one_def)
  next
    case False
    with Cons.prems have f: "find_one p docs = Some d" by (simp add: find_one_def)
    then have "d \<in> set docs" by (simp add: find_one_Some)
    with Cons.prems(1) have "k x \<noteq> k d" by auto
    with False Cons.IH [OF _ f Cons.prems(3)] Cons.prems(1) show ?thesis
      by (simp add: find_one_def)
  qed
qed

lemma daily_checkin_loop_returns:
  "0 \<le> level \<Longrightarrow> \<exists>e l u. daily_checkin_loop new_exp level leveled_up = Inr (e, l, u)"
proof (induction new_exp level leveled_up rule: daily_checkin_loop.induct)
  case (1 new_exp level leveled_up)
  have nle: "next_level_exp level = Inr (required level)"
    using "1.prems" by (simp add: next_level_exp_required)
  show ?case
  proof (cases "required level \<le> new_exp")
    case True
    have "0 \<le> level + 1" using "1.prems" by simp
    from "1.IH" [OF nle True this] True nle show ?thesis
      by (subst daily_checkin_loop.simps) simp
  next
    case False
    with nle show ?thesis by (subst daily_checkin_loop.simps) simp
  qed
qed



lemma diff_mult_nonneg: "0 \<le> diff_mult d"
  by (simp add: diff_mult_def)

subsection \<open>Example states\<close>

text \<open>
  A hunter as \<open>create_hunter\<close> makes it, in a store that holds nothing else; the identifier
  the client sends for it; and two instants one calendar day apart (across a leap day).
\<close>

definition example_now :: datetime where
  "example_now = \<lparr>dt_date = \<lparr>year = 2024, month = 3, day = 1\<rparr>, dt_micros = 0\<rparr>"

definition example_yesterday :: datetime where
  "example_yesterday = \<lparr>dt_date = \<lparr>year = 2024, month = 2, day = 29\<rparr>, dt_micros = 0\<rparr>"

definition example_uid :: string where
  "example_uid = ''000000000000000000000000''"

definition empty_store :: database where
  "empty_store = \<lparr>hunter_coll = [], workout_coll = [], quest_coll = [], checkin_coll = [],
                   next_id = 0\<rparr>"

definition example_hunter :: hunter where
  "example_hunter = \<lparr>h_id = 0, h_name = ''Jinwoo'', h_title = None, h_level = 1, h_exp = 0,
                      h_streak = 0, h_last_checkin = None, h_created_at = example_yesterday,
                      h_updated_at = example_yesterday\<rparr>"

definition example_store :: database where
  "example_store = \<lparr>hunter_coll = [example_hunter], workout_coll = [], quest_coll = [],
                     checkin_coll = [], next_id = 1\<rparr>"

lemma create_hunter_example:
  "create_hunter example_yesterday (Some empty_store) \<lparr>ch_name = ''Jinwoo'', ch_title = None\<rparr>
     = (Inr example_hunter, Some example_store)"
  by (simp add: create_hunter_def Let_def empty_store_def example_hunter_def example_store_def)

text \<open>
  The states the handlers reach from \<open>example_store\<close>: \<open>quest_store\<close> after the first
  fetch of the daily quest, \<open>completed_store\<close> after the quest is completed, and
  \<open>checked_in_store\<close> after a first check-in on the earlier day. \<open>orphan_store\<close> holds a
  pending quest under an identifier that is well formed but names no hunter; no sequence
  of the handlers modelled here produces it (hunters are never deleted by them), the
  store has to lose the hunter by other means.
\<close>

definition example_quest :: quest where
  "example_quest = \<lparr>q_id = 1, q_user_id = example_uid, q_date = ''2024-03-01'',
      q_title = ''Run 3 km'',
      q_description = ''Complete the task to earn EXP and keep your streak.'',
      q_exp_reward = 90, q_completed = False, q_created_at = example_now,
      q_updated_at = example_now\<rparr>"

definition quest_store :: database where
  "quest_store = example_store\<lparr>quest_coll := [example_quest], next_id := 2\<rparr>"

definition completed_store :: database where
  "completed_store = example_store\<lparr>
     hunter_coll := [example_hunter\<lparr>h_exp := 90, h_updated_at := example_now\<rparr>],
     quest_coll := [example_quest\<lparr>q_completed := True\<rparr>], next_id := 2\<rparr>"

definition orphan_uid :: string where
  "orphan_uid = ''0000000000000000000000ff''"

definition orphan_store :: database where
  "orphan_store = example_store\<lparr>quest_coll := [example_quest\<lparr>q_user_id := orphan_uid\<rparr>],
                                 next_id := 2\<rparr>"

definition checked_in_store :: database where
  "checked_in_store = example_store\<lparr>
     hunter_coll := [example_hunter\<lparr>h_exp := 11, h_streak := 1,
                                    h_last_checkin := Some example_yesterday\<rparr>],
     checkin_coll := [\<lparr>c_id = 1, c_user_id = example_uid, c_date = ''2024-02-29'',
                       c_streak_after = 1, c_created_at = example_yesterday,
                       c_updated_at = example_yesterday\<rparr>],
     next_id := 2\<rparr>"

lemmas example_defs = example_now_def example_yesterday_def example_uid_def empty_store_def
  example_hunter_def example_store_def example_quest_def quest_store_def completed_store_def

lemmas eval_defs = today_str_def isoformat_def zero_pad_def decimal.simps
  toordinal_def days_before_year_def days_before_month_def days_in_month_def is_leap_def
  ObjectId_def hex_digit_def find_one_def Let_def quest_date_def
  next_level_exp_def floor_sqrt.simps

lemma get_daily_quests_example:
  "get_daily_quests example_now 1 (Some example_store) example_uid
     = (Inr example_quest, Some quest_store)"
  by (simp add: get_daily_quests_def base_def example_defs eval_defs)

lemma complete_quest_example:
  "complete_quest example_now (Some quest_store) \<lparr>cq_user_id = example_uid, cq_date = None\<rparr>
     = (Inr [(''message'', JStr ''Quest completed''), (''reward'', JInt 90), (''level'', JInt 1),
             (''exp'', JInt 90), (''leveled_up'', JBool False)], Some completed_store)"
  by (simp add: complete_quest_def complete_quest_loop.simps example_defs eval_defs)

lemma daily_checkin_example:
  "daily_checkin example_yesterday (Some example_store) example_uid
     = (Inr [(''message'', JStr ''Check-in complete''), (''exp_gain'', JInt 11),
             (''streak'', JInt 1), (''level'', JInt 1), (''exp'', JInt 11),
             (''leveled_up'', JBool False)], Some checked_in_store)"
  by (simp add: daily_checkin_def daily_checkin_loop.simps checked_in_store_def
      example_defs eval_defs)

lemma level_up_establishes_invariant:
  assumes "1 \<le> level" and "0 \<le> new_exp"
    and "daily_checkin_loop new_exp level leveled_up = Inr (e, l, u)"
  shows "1 \<le> l \<and> 0 \<le> e \<and> e < required l"
  using daily_checkin_loop_spec [OF assms(1,2), of leveled_up] assms(1,3) by auto

subsection \<open>What the handlers preserve\<close>

text \<open>
  \<open>store_inv\<close>: every hunter satisfies \<open>hunter_inv\<close> and has a streak \<open>\<ge> 0\<close>, and every quest
  has a reward \<open>\<ge> 0\<close>. Hunter creation, check-in, quest fetch and quest completion
  preserve it for every input; workout logging preserves it when \<open>minutes \<ge> 0\<close>.
\<close>

definition store_inv :: "database \<Rightarrow> bool" where
  "store_inv store =
     (list_all (\<lambda>h. hunter_inv h \<and> 0 \<le> h_streak h) (hunter_coll store)
      \<and> list_all (\<lambda>q. 0 \<le> q_exp_reward q) (quest_coll store))"

lemma list_all_update_one:
  assumes "list_all P docs" and "\<And>d. d \<in> set docs \<Longrightarrow> p d \<Longrightarrow> P (f d)"
  shows "list_all P (update_one p f docs)"
  using assms by (induction docs) auto

lemma find_one_list_all:
  "find_one p docs = Some d \<Longrightarrow> list_all P docs \<Longrightarrow> P d"
  using find_one_Some [of p docs d] by (auto simp: list_all_iff)

lemma hunter_update_inv:
  assumes inv: "list_all (\<lambda>h. hunter_inv h \<and> 0 \<le> h_streak h) hunters"
    and found: "find_one p hunters = Some hunter"
    and gain: "0 \<le> gain"
    and run: "daily_checkin_loop (h_exp hunter + gain) (h_level hunter) False = Inr (e, l, u)"
    and f: "\<And>h. h_exp (f h) = e \<and> h_level (f h) = l \<and> 0 \<le> h_streak (f h)"
  shows "list_all (\<lambda>h. hunter_inv h \<and> 0 \<le> h_streak h) (update_one q f hunters)"
proof -
  have h: "hunter_inv hunter" using find_one_list_all [OF found inv] by simp
  then have "1 \<le> h_level hunter" "0 \<le> h_exp hunter + gain"
    using gain by (simp_all add: hunter_inv_def)
  from level_up_establishes_invariant [OF this run]
  have "hunter_inv (f d) \<and> 0 \<le> h_streak (f d)" for d
    using f [of d] by (simp add: hunter_inv_def)
  then show ?thesis using inv by (intro list_all_update_one) simp_all
qed

lemma create_hunter_store_inv:
  assumes "store_inv store" and "create_hunter now (Some store) payload = (r, Some store1)"
  shows "store_inv store1"
  using assms
  by (auto simp: create_hunter_def Let_def store_inv_def hunter_inv_def required_1)

lemma daily_checkin_store_inv:
  assumes inv: "store_inv store" and res: "daily_checkin now (Some store) user_id = (r, Some store1)"
  shows "store_inv store1"
proof (cases "ObjectId user_id")
  case None
  with res inv show ?thesis by (simp add: daily_checkin_def)
next
  case (Some oid)
  show ?thesis
  proof (cases "find_one (\<lambda>h. h_id h = oid) (hunter_coll store)")
    case None
    with Some res inv show ?thesis by (simp add: daily_checkin_def)
  next
    case found: (Some hunter)
    define new_streak where "new_streak =
      (case h_last_checkin hunter of None \<Rightarrow> 1
       | Some t \<Rightarrow> if toordinal (dt_date now) - toordinal (dt_date t) = 1
                   then h_streak hunter + 1 else 1)"
    have st: "0 \<le> h_streak hunter"
      using find_one_list_all [OF found] inv by (auto simp: store_inv_def)
    then have ns: "1 \<le> new_streak" by (simp add: new_streak_def split: option.splits)
    then have gain: "0 \<le> 10 + min new_streak 20" by simp
    show ?thesis
    proof (cases "map_option (\<lambda>t. isoformat (dt_date t)) (h_last_checkin hunter) = Some (today_str now)")
      case True
      with Some found res inv show ?thesis by (simp add: daily_checkin_def Let_def)
    next
      case False
      show ?thesis
      proof (cases "daily_checkin_loop (h_exp hunter + (10 + min new_streak 20)) (h_level hunter) False")
        case (Inl e)
        have "daily_checkin now (Some store) user_id = (Inl e, Some store)"
          unfolding daily_checkin_def Let_def
          using Some found False Inl [unfolded new_streak_def] by simp
        with res inv show ?thesis by simp
      next
        case (Inr t)
        obtain e l u where t: "t = (e, l, u)" by (cases t)
        let ?f = "\<lambda>h. h\<lparr>h_exp := e, h_level := l, h_last_checkin := Some now,
                        h_streak := new_streak, h_updated_at := now\<rparr>"
        have "list_all (\<lambda>h. hunter_inv h \<and> 0 \<le> h_streak h)
                (update_one (\<lambda>h. h_id h = h_id hunter) ?f (hunter_coll store))"
          using inv found gain Inr [unfolded t] ns
          by (intro hunter_update_inv [where gain = "10 + min new_streak 20"])
             (simp_all add: store_inv_def)
        moreover have "daily_checkin now (Some store) user_id =
          (Inr [(''message'', JStr ''Check-in complete''),
                (''exp_gain'', JInt (10 + min new_streak 20)), (''streak'', JInt new_streak),
                (''level'', JInt l), (''exp'', JInt e), (''leveled_up'', JBool u)],
           Some (store\<lparr>
            hunter_coll := update_one (\<lambda>h. h_id h = h_id hunter) ?f (hunter_coll store),
            checkin_coll := checkin_coll store @
              [\<lparr>c_id = next_id store, c_user_id = user_id, c_date = today_str now,
                c_streak_after = new_streak, c_created_at = now, c_updated_at = now\<rparr>],
            next_id := next_id store + 1\<rparr>))"
          unfolding daily_checkin_def Let_def
          using Some found False Inr [unfolded t new_streak_def]
          by (simp add: new_streak_def)
        with res have "store1 = store\<lparr>
            hunter_coll := update_one (\<lambda>h. h_id h = h_id hunter) ?f (hunter_coll store),
            checkin_coll := checkin_coll store @
              [\<lparr>c_id = next_id store, c_user_id = user_id, c_date = today_str now,
                c_streak_after = new_streak, c_created_at = now, c_updated_at = now\<rparr>],
            next_id := next_id store + 1\<rparr>"
          by simp
        ultimately show ?thesis using inv by (simp add: store_inv_def)
      qed
    qed
  qed
qed

lemma log_workout_store_inv:
  assumes inv: "store_inv store" and minutes: "0 \<le> lw_minutes payload"
    and res: "log_workout now (Some store) payload = (r, Some store1)"
  shows "store_inv store1"
proof (cases "ObjectId (lw_user_id payload)")
  case None
  with res inv show ?thesis by (simp add: log_workout_def Let_def)
next
  case (Some oid)
  show ?thesis
  proof (cases "find_one (\<lambda>h. h_id h = oid) (hunter_coll store)")
    case None
    with Some res inv show ?thesis by (simp add: log_workout_def Let_def)
  next
    case found: (Some hunter)
    define exp_gain where
      "exp_gain = int_of_float (of_int (lw_minutes payload) * diff_mult (lw_difficulty payload))"
    have "0 \<le> of_int (lw_minutes payload) * diff_mult (lw_difficulty payload)"
      using minutes diff_mult_nonneg [of "lw_difficulty payload"] by simp
    then have gain: "0 \<le> exp_gain" by (simp add: exp_gain_def int_of_float_def)
    have st: "0 \<le> h_streak hunter"
      using find_one_list_all [OF found] inv by (auto simp: store_inv_def)
    show ?thesis
    proof (cases "log_workout_loop (h_exp hunter + exp_gain) (h_level hunter) False")
      case (Inl e)
      have "log_workout now (Some store) payload = (Inl e, Some store)"
        unfolding log_workout_def Let_def
        using Some found Inl [unfolded exp_gain_def] by simp
      with res inv show ?thesis by simp
    next
      case (Inr t)
      obtain e l u where t: "t = (e, l, u)" by (cases t)
      let ?f = "\<lambda>h. h\<lparr>h_exp := e, h_level := l, h_updated_at := now\<rparr>"
      have run: "daily_checkin_loop (h_exp hunter + exp_gain) (h_level hunter) False = Inr (e, l, u)"
        using Inr t by (simp add: log_workout_loop_eq)
      have upd: "list_all (\<lambda>h. hunter_inv h \<and> 0 \<le> h_streak h)
              (update_one (\<lambda>h. h_id h = h_id hunter) ?f (hunter_coll store))"
      proof (rule list_all_update_one)
        show "list_all (\<lambda>h. hunter_inv h \<and> 0 \<le> h_streak h) (hunter_coll store)"
          using inv by (simp add: store_inv_def)
      next
        fix d assume d: "d \<in> set (hunter_coll store)"
        have "hunter_inv hunter" using find_one_list_all [OF found] inv by (auto simp: store_inv_def)
        then have "1 \<le> h_level hunter" "0 \<le> h_exp hunter + exp_gain"
          using gain by (simp_all add: hunter_inv_def)
        from level_up_establishes_invariant [OF this run]
        have "hunter_inv (?f d)" by (simp add: hunter_inv_def)
        moreover have "0 \<le> h_streak d" using d inv by (auto simp: store_inv_def list_all_iff)
        ultimately show "hunter_inv (?f d) \<and> 0 \<le> h_streak (?f d)" by simp
      qed
      have "log_workout now (Some store) payload =
          (Inr [(''message'', JStr ''Workout logged''), (''exp_gain'', JInt exp_gain),
                (''level'', JInt l), (''exp'', JInt e), (''leveled_up'', JBool u)],
           Some (store\<lparr>
            hunter_coll := update_one (\<lambda>h. h_id h = h_id hunter) ?f (hunter_coll store),
            workout_coll := workout_coll store @
              [\<lparr>w_id = next_id store, w_user_id = lw_user_id payload,
                w_workout_type = lw_workout_type payload, w_minutes = lw_minutes payload,
                w_difficulty = lw_difficulty payload, w_exp_awarded = exp_gain,
                w_created_at = now, w_updated_at = now\<rparr>],
            next_id := next_id store + 1\<rparr>))"
        unfolding log_workout_def Let_def
        using Some found Inr [unfolded t exp_gain_def]
        by (simp add: exp_gain_def)
      with res have "hunter_coll store1
            = update_one (\<lambda>h. h_id h = h_id hunter) ?f (hunter_coll store)
          \<and> quest_coll store1 = quest_coll store"
        by auto
      with upd inv show ?thesis by (simp add: store_inv_def)
    qed
  qed
qed

lemma get_daily_quests_store_inv:
  assumes inv: "store_inv store"
    and res: "get_daily_quests now draw (Some store) user_id = (r, Some store1)"
  shows "store_inv store1"
proof -
  have "0 \<le> snd (base ! (draw mod length base))"
  proof -
    have "draw mod 4 < 4" by simp
    then have "draw mod 4 = 0 \<or> draw mod 4 = 1 \<or> draw mod 4 = 2 \<or> draw mod 4 = 3" by arith
    then show ?thesis by (auto simp: base_def)
  qed
  then show ?thesis
    using res inv
    by (auto simp: get_daily_quests_def Let_def store_inv_def
        split: option.splits prod.splits)
qed

lemma complete_quest_store_inv:
  assumes inv: "store_inv store"
    and res: "complete_quest now (Some store) payload = (r, Some store1)"
  shows "store_inv store1"
proof (cases "find_one (\<lambda>q. q_user_id q = cq_user_id payload \<and> q_date q = quest_date now payload)
                (quest_coll store)")
  case None
  with res inv show ?thesis by (simp add: complete_quest_def Let_def)
next
  case qfound: (Some quest)
  show ?thesis
  proof (cases "q_completed quest")
    case True
    with qfound res inv show ?thesis by (simp add: complete_quest_def Let_def)
  next
    case pending: False
    let ?g = "\<lambda>q. q\<lparr>q_completed := True, q_updated_at := now\<rparr>"
    define store0 where "store0 = store\<lparr>quest_coll :=
        update_one (\<lambda>q. q_id q = q_id quest) ?g (quest_coll store)\<rparr>"
    have reward: "0 \<le> q_exp_reward quest"
      using find_one_list_all [OF qfound] inv by (auto simp: store_inv_def)
    have "list_all (\<lambda>q. 0 \<le> q_exp_reward q)
            (update_one (\<lambda>q. q_id q = q_id quest) ?g (quest_coll store))"
      using inv by (intro list_all_update_one) (auto simp: store_inv_def list_all_iff)
    then have inv0: "store_inv store0" using inv by (simp add: store_inv_def store0_def)
    show ?thesis
    proof (cases "ObjectId (cq_user_id payload)")
      case None
      have "complete_quest now (Some store) payload
              = (Inl (HTTPException 400 ''Invalid user id''), Some store0)"
        unfolding complete_quest_def Let_def using qfound pending None
        by (simp add: store0_def)
      with res inv0 show ?thesis by simp
    next
      case (Some oid)
      show ?thesis
      proof (cases "find_one (\<lambda>h. h_id h = oid) (hunter_coll store)")
        case None
        have "complete_quest now (Some store) payload
                = (Inl (HTTPException 404 ''Hunter not found''), Some store0)"
          unfolding complete_quest_def Let_def using qfound pending Some None
          by (simp add: store0_def)
        with res inv0 show ?thesis by simp
      next
        case found: (Some hunter)
        show ?thesis
        proof (cases "complete_quest_loop (h_exp hunter + q_exp_reward quest) (h_level hunter) False")
          case (Inl e)
          have "complete_quest now (Some store) payload = (Inl e, Some store0)"
            unfolding complete_quest_def Let_def using qfound pending Some found Inl
            by (simp add: store0_def)
          with res inv0 show ?thesis by simp
        next
          case (Inr t)
          obtain e l u where t: "t = (e, l, u)" by (cases t)
          let ?f = "\<lambda>h. h\<lparr>h_exp := e, h_level := l, h_updated_at := now\<rparr>"
          have run: "daily_checkin_loop (h_exp hunter + q_exp_reward quest) (h_level hunter) False
                       = Inr (e, l, u)"
            using Inr t by (simp add: complete_quest_loop_eq)
          have upd: "list_all (\<lambda>h. hunter_inv h \<and> 0 \<le> h_streak h)
                  (update_one (\<lambda>h. h_id h = h_id hunter) ?f (hunter_coll store))"
          proof (rule list_all_update_one)
            show "list_all (\<lambda>h. hunter_inv h \<and> 0 \<le> h_streak h) (hunter_coll store)"
              using inv by (simp add: store_inv_def)
          next
            fix d assume d: "d \<in> set (hunter_coll store)"
            have "hunter_inv hunter"
              using find_one_list_all [OF found] inv by (auto simp: store_inv_def)
            then have "1 \<le> h_level hunter" "0 \<le> h_exp hunter + q_exp_reward quest"
              using reward by (simp_all add: hunter_inv_def)
            from level_up_establishes_invariant [OF this run]
            have "hunter_inv (?f d)" by (simp add: hunter_inv_def)
            moreover have "0 \<le> h_streak d"
              using d inv by (auto simp: store_inv_def list_all_iff)
            ultimately show "hunter_inv (?f d) \<and> 0 \<le> h_streak (?f d)" by simp
          qed
          have "complete_quest now (Some store) payload =
              (Inr [(''message'', JStr ''Quest completed''), (''reward'', JInt (q_exp_reward quest)),
                    (''level'', JInt l), (''exp'', JInt e), (''leveled_up'', JBool u)],
               Some (store0\<lparr>hunter_coll :=
                  update_one (\<lambda>h. h_id h = h_id hunter) ?f (hunter_coll store0)\<rparr>))"
            unfolding complete_quest_def Let_def using qfound pending Some found Inr [unfolded t]
            by (simp add: store0_def)
          with res have "store1 = store0\<lparr>hunter_coll :=
                  update_one (\<lambda>h. h_id h = h_id hunter) ?f (hunter_coll store0)\<rparr>"
            by simp
          with upd inv0 show ?thesis by (simp add: store_inv_def store0_def)
        qed
      qed
    qed
  qed
qed

section \<open>The claims\<close>



text \<open>
  C2. Every hunter state persisted by an endpoint should satisfy \<open>hunter_inv\<close>. The hunter
  that \<open>create_hunter\<close> persists does; \<open>log_workout\<close> with \<open>minutes = -60\<close>, which the request
  model accepts, then persists \<open>exp = -90\<close> for it, against \<open>hunter_inv\<close> and against
  the \<open>ge=0\<close> that \<open>schemas.py\<close> declares for \<open>exp\<close>.
\<close>

theorem log_workout_negative_minutes:
  "create_hunter example_yesterday (Some empty_store) \<lparr>ch_name = ''Jinwoo'', ch_title = None\<rparr>
     = (Inr example_hunter, Some example_store)
   \<and> hunter_inv example_hunter
   \<and> log_workout example_now (Some example_store)
       \<lparr>lw_user_id = example_uid, lw_workout_type = ''run'', lw_minutes = - 60,
        lw_difficulty = ''normal''\<rparr>
     = (Inr [(''message'', JStr ''Workout logged''), (''exp_gain'', JInt (- 90)),
             (''level'', JInt 1), (''exp'', JInt (- 90)), (''leveled_up'', JBool False)],
        Some (example_store\<lparr>
          hunter_coll := [example_hunter\<lparr>h_exp := - 90, h_updated_at := example_now\<rparr>],
          workout_coll := [\<lparr>w_id = 1, w_user_id = example_uid, w_workout_type = ''run'',
                            w_minutes = - 60, w_difficulty = ''normal'', w_exp_awarded = - 90,
                            w_created_at = example_now, w_updated_at = example_now\<rparr>],
          next_id := 2\<rparr>))
   \<and> \<not> hunter_inv (example_hunter\<lparr>h_exp := - 90, h_updated_at := example_now\<rparr>)
   \<and> \<not> Hunter_schema (example_hunter\<lparr>h_exp := - 90, h_updated_at := example_now\<rparr>)"
proof -
  have "hunter_inv example_hunter"
    by (simp add: hunter_inv_def example_hunter_def required_1)
  moreover have "\<not> hunter_inv (example_hunter\<lparr>h_exp := - 90, h_updated_at := example_now\<rparr>)"
    by (simp add: hunter_inv_def)
  moreover have "\<not> Hunter_schema (example_hunter\<lparr>h_exp := - 90, h_updated_at := example_now\<rparr>)"
    by (simp add: Hunter_schema_def)
  moreover have "log_workout example_now (Some example_store)
       \<lparr>lw_user_id = example_uid, lw_workout_type = ''run'', lw_minutes = - 60,
        lw_difficulty = ''normal''\<rparr>
     = (Inr [(''message'', JStr ''Workout logged''), (''exp_gain'', JInt (- 90)),
             (''level'', JInt 1), (''exp'', JInt (- 90)), (''leveled_up'', JBool False)],
        Some (example_store\<lparr>
          hunter_coll := [example_hunter\<lparr>h_exp := - 90, h_updated_at := example_now\<rparr>],
          workout_coll := [\<lparr>w_id = 1, w_user_id = example_uid, w_workout_type = ''run'',
                            w_minutes = - 60, w_difficulty = ''normal'', w_exp_awarded = - 90,
                            w_created_at = example_now, w_updated_at = example_now\<rparr>],
          next_id := 2\<rparr>))"
    by (simp add: log_workout_def log_workout_loop.simps int_of_float_def diff_mult_def
        example_defs eval_defs)
  ultimately show ?thesis using create_hunter_example by simp
qed

text \<open>
  C3. A request to log a workout whose \<open>minutes\<close> is not in \<open>1..300\<close> should be rejected
  before the handler runs. A body with \<open>minutes = 301\<close> passes the validation of
  \<open>LogWorkoutRequest\<close>, the handler runs, the hunter is updated and a workout record is
  inserted that breaks the bounds \<open>schemas.py\<close> declares for \<open>minutes\<close>.
\<close>

theorem post_api_workouts_accepts_301_minutes:
  "post_api_workouts example_now (Some example_store)
       [''user_id'' \<mapsto> JStr example_uid, ''workout_type'' \<mapsto> JStr ''run'',
        ''minutes'' \<mapsto> JInt 301]
     = (Inr [(''message'', JStr ''Workout logged''), (''exp_gain'', JInt 451),
             (''level'', JInt 3), (''exp'', JInt 69), (''leveled_up'', JBool True)],
        Some (example_store\<lparr>
          hunter_coll := [example_hunter\<lparr>h_exp := 69, h_level := 3,
                                         h_updated_at := example_now\<rparr>],
          workout_coll := [\<lparr>w_id = 1, w_user_id = example_uid, w_workout_type = ''run'',
                            w_minutes = 301, w_difficulty = ''normal'', w_exp_awarded = 451,
                            w_created_at = example_now, w_updated_at = example_now\<rparr>],
          next_id := 2\<rparr>))
   \<and> \<not> Workout_schema \<lparr>w_id = 1, w_user_id = example_uid, w_workout_type = ''run'',
                            w_minutes = 301, w_difficulty = ''normal'', w_exp_awarded = 451,
                            w_created_at = example_now, w_updated_at = example_now\<rparr>"
  by (simp add: post_api_workouts_def validate_LogWorkoutRequest_def Workout_schema_def
      log_workout_def log_workout_loop.simps int_of_float_def diff_mult_def
      example_defs eval_defs)

text \<open>
  C4. Quest completion is idempotent under sequential calls: when the quest of the
  requested \<open>(user_id, date)\<close> is already marked completed, the request returns the stored
  \<open>exp_reward\<close> as its reward and leaves the whole store unchanged, so the hunter's level
  and exp and the quest document stay as they were.
\<close>

theorem complete_quest_idempotent:
  assumes "find_one (\<lambda>q. q_user_id q = cq_user_id payload \<and> q_date q = quest_date now payload)
             (quest_coll store) = Some quest"
    and "q_completed quest"
  shows "complete_quest now (Some store) payload =
           (Inr [(''message'', JStr ''Quest already completed''),
                 (''reward'', JInt (q_exp_reward quest))], Some store)"
  using assms by (simp add: complete_quest_def)

text \<open>
  The second of two completions of the example quest: the first call
  (\<open>complete_quest_example\<close>) awards 90 EXP and leads to \<open>completed_store\<close>, the second
  returns the same reward and changes nothing.
\<close>

theorem complete_quest_idempotent_witness:
  "complete_quest example_now (Some completed_store) \<lparr>cq_user_id = example_uid, cq_date = None\<rparr>
     = (Inr [(''message'', JStr ''Quest already completed''), (''reward'', JInt 90)],
        Some completed_store)"
proof -
  let ?p = "\<lparr>cq_user_id = example_uid, cq_date = None\<rparr>"
  let ?q = "example_quest\<lparr>q_completed := True\<rparr>"
  have f: "find_one (\<lambda>q. q_user_id q = cq_user_id ?p \<and> q_date q = quest_date example_now ?p)
             (quest_coll completed_store) = Some ?q"
    by (simp add: example_defs eval_defs)
  have c: "q_completed ?q" by simp
  from complete_quest_idempotent [OF f c] show ?thesis
    by (simp add: example_quest_def)
qed

text \<open>
  C5. In quest completion the quest is set to \<open>completed = true\<close> before the hunter is
  looked up. When the quest of the request exists and is not completed, and the
  \<open>user_id\<close> does not parse or names no hunter, the handler raises 400 or 404 after the
  quest write: the returned store has the quest completed and the hunters untouched, and
  a retry for the same quest takes the already-completed branch, so its EXP is never
  awarded. (\<open>_id\<close> is unique within the quest collection, as the store guarantees.)
\<close>

theorem complete_quest_marks_before_hunter_lookup:
  assumes "find_one (\<lambda>q. q_user_id q = cq_user_id payload \<and> q_date q = quest_date now payload)
             (quest_coll store) = Some quest"
    and "\<not> q_completed quest"
    and "distinct (map q_id (quest_coll store))"
    and "case ObjectId (cq_user_id payload) of
           None \<Rightarrow> True
         | Some oid \<Rightarrow> find_one (\<lambda>h. h_id h = oid) (hunter_coll store) = None"
    and "quest_date later payload = quest_date now payload"
  shows "\<exists>store1.
           complete_quest now (Some store) payload =
             (Inl (if ObjectId (cq_user_id payload) = None
                   then HTTPException 400 ''Invalid user id''
                   else HTTPException 404 ''Hunter not found''), Some store1)
         \<and> hunter_coll store1 = hunter_coll store
         \<and> find_one (\<lambda>q. q_user_id q = cq_user_id payload \<and> q_date q = quest_date now payload)
              (quest_coll store1)
             = Some (quest\<lparr>q_completed := True, q_updated_at := now\<rparr>)
         \<and> complete_quest later (Some store1) payload =
             (Inr [(''message'', JStr ''Quest already completed''),
                   (''reward'', JInt (q_exp_reward quest))], Some store1)"
proof -
  define store1 where "store1 = store\<lparr>quest_coll :=
      update_one (\<lambda>q. q_id q = q_id quest) (\<lambda>q. q\<lparr>q_completed := True, q_updated_at := now\<rparr>)
        (quest_coll store)\<rparr>"
  have p: "q_user_id quest = cq_user_id payload \<and> q_date quest = quest_date now payload"
    using find_one_Some [OF assms(1)] by simp
  have found: "find_one (\<lambda>q. q_user_id q = cq_user_id payload \<and> q_date q = quest_date now payload)
      (quest_coll store1) = Some (quest\<lparr>q_completed := True, q_updated_at := now\<rparr>)"
    unfolding store1_def using find_one_update_one_key [OF assms(3) assms(1), of "\<lambda>q. q\<lparr>q_completed := True, q_updated_at := now\<rparr>"] p
    by simp
  have first: "complete_quest now (Some store) payload =
             (Inl (if ObjectId (cq_user_id payload) = None
                   then HTTPException 400 ''Invalid user id''
                   else HTTPException 404 ''Hunter not found''), Some store1)"
    using assms(1,2,4) by (auto simp: complete_quest_def store1_def split: option.splits)
  have retry: "complete_quest later (Some store1) payload =
             (Inr [(''message'', JStr ''Quest already completed''),
                   (''reward'', JInt (q_exp_reward quest))], Some store1)"
    using found assms(5) by (simp add: complete_quest_def)
  have "hunter_coll store1 = hunter_coll store" by (simp add: store1_def)
  with first found retry show ?thesis by blast
qed

text \<open>
  The pending quest of \<open>orphan_store\<close>: the first call answers 404 and marks the quest, the
  retry gets the no-op answer, and the only hunter of the store is as before.
\<close>

theorem complete_quest_marks_before_hunter_lookup_witness:
  "\<exists>store1.
     complete_quest example_yesterday (Some orphan_store)
         \<lparr>cq_user_id = orphan_uid, cq_date = Some ''2024-03-01''\<rparr>
       = (Inl (HTTPException 404 ''Hunter not found''), Some store1)
   \<and> hunter_coll store1 = [example_hunter]
   \<and> map q_completed (quest_coll orphan_store) = [False]
   \<and> complete_quest example_now (Some store1)
         \<lparr>cq_user_id = orphan_uid, cq_date = Some ''2024-03-01''\<rparr>
       = (Inr [(''message'', JStr ''Quest already completed''), (''reward'', JInt 90)],
          Some store1)"
proof -
  let ?p = "\<lparr>cq_user_id = orphan_uid, cq_date = Some ''2024-03-01''\<rparr>"
  let ?q = "example_quest\<lparr>q_user_id := orphan_uid\<rparr>"
  have f: "find_one (\<lambda>q. q_user_id q = cq_user_id ?p \<and> q_date q = quest_date example_yesterday ?p)
             (quest_coll orphan_store) = Some ?q"
    by (simp add: orphan_store_def orphan_uid_def example_defs eval_defs)
  have n: "\<not> q_completed ?q" by (simp add: example_quest_def)
  have d: "distinct (map q_id (quest_coll orphan_store))"
    by (simp add: orphan_store_def)
  have h: "case ObjectId (cq_user_id ?p) of
             None \<Rightarrow> True
           | Some oid \<Rightarrow> find_one (\<lambda>h. h_id h = oid) (hunter_coll orphan_store) = None"
    by (simp add: orphan_store_def orphan_uid_def example_defs eval_defs)
  have l: "quest_date example_now ?p = quest_date example_yesterday ?p"
    by (simp add: quest_date_def)
  have o: "ObjectId orphan_uid \<noteq> None"
    by (simp add: orphan_uid_def eval_defs)
  from complete_quest_marks_before_hunter_lookup [OF f n d h l] o show ?thesis
    by (auto simp: orphan_store_def example_store_def example_quest_def)
qed

text \<open>
  C6. The daily check-in is a no-op within a calendar day (UTC): for a hunter whose
  \<open>last_checkin\<close> has today's date, the request answers "Already checked in today" with
  the current streak, level and exp, and returns the store unchanged: no hunter field
  changes and no Checkin record is inserted.
\<close>

theorem daily_checkin_same_day_noop:
  assumes "ObjectId user_id = Some oid"
    and "find_one (\<lambda>h. h_id h = oid) (hunter_coll store) = Some hunter"
    and "h_last_checkin hunter = Some t"
    and "dt_date t = dt_date now"
  shows "daily_checkin now (Some store) user_id =
           (Inr [(''message'', JStr ''Already checked in today''),
                 (''streak'', JInt (h_streak hunter)),
                 (''level'', JInt (h_level hunter)),
                 (''exp'', JInt (h_exp hunter))], Some store)"
  using assms by (simp add: daily_checkin_def today_str_def)

text \<open>
  A second check-in on the day of the first one, one second later.
\<close>

theorem daily_checkin_same_day_noop_witness:
  "daily_checkin (example_yesterday\<lparr>dt_micros := 1000000\<rparr>) (Some checked_in_store) example_uid
     = (Inr [(''message'', JStr ''Already checked in today''), (''streak'', JInt 1),
             (''level'', JInt 1), (''exp'', JInt 11)], Some checked_in_store)"
proof -
  let ?h = "example_hunter\<lparr>h_exp := 11, h_streak := 1, h_last_checkin := Some example_yesterday\<rparr>"
  have a: "ObjectId example_uid = Some 0" by (simp add: example_uid_def eval_defs)
  have b: "find_one (\<lambda>h. h_id h = 0) (hunter_coll checked_in_store) = Some ?h"
    by (simp add: checked_in_store_def example_defs eval_defs)
  have c: "h_last_checkin ?h = Some example_yesterday" by simp
  have d: "dt_date example_yesterday = dt_date (example_yesterday\<lparr>dt_micros := 1000000\<rparr>)"
    by simp
  from daily_checkin_same_day_noop [OF a b c d] show ?thesis
    by (simp add: example_hunter_def)
qed

text \<open>
  C7. For a check-in that is not a same-day no-op, the new streak is \<open>old_streak + 1\<close>
  when the prior check-in's date is exactly one day before today, and 1 when there is no
  prior check-in or the gap exceeds one day; the new streak is returned, persisted on the
  hunter and recorded as \<open>streak_after\<close> in the Checkin record appended to the collection.
  (The stored level is not negative, so that \<open>next_level_exp\<close> does not raise.)
\<close>

theorem daily_checkin_streak:
  assumes "ObjectId user_id = Some oid"
    and "find_one (\<lambda>h. h_id h = oid) (hunter_coll store) = Some hunter"
    and "map_option (\<lambda>t. isoformat (dt_date t)) (h_last_checkin hunter) \<noteq> Some (today_str now)"
    and "0 \<le> h_level hunter"
  shows "\<exists>new_streak resp store1 hunter1 rec.
           daily_checkin now (Some store) user_id = (Inr resp, Some store1)
         \<and> (h_last_checkin hunter = None \<longrightarrow> new_streak = 1)
         \<and> (\<forall>t. h_last_checkin hunter = Some t
                \<and> toordinal (dt_date now) - toordinal (dt_date t) = 1
              \<longrightarrow> new_streak = h_streak hunter + 1)
         \<and> (\<forall>t. h_last_checkin hunter = Some t
                \<and> toordinal (dt_date now) - toordinal (dt_date t) > 1
              \<longrightarrow> new_streak = 1)
         \<and> map_of resp ''streak'' = Some (JInt new_streak)
         \<and> find_one (\<lambda>h. h_id h = oid) (hunter_coll store1) = Some hunter1
         \<and> h_streak hunter1 = new_streak
         \<and> checkin_coll store1 = checkin_coll store @ [rec]
         \<and> c_streak_after rec = new_streak"
proof -
  define new_streak where "new_streak =
    (case h_last_checkin hunter of None \<Rightarrow> 1
     | Some t \<Rightarrow> if toordinal (dt_date now) - toordinal (dt_date t) = 1
                 then h_streak hunter + 1 else 1)"
  define exp_gain where "exp_gain = 10 + min new_streak 20"
  obtain new_exp level leveled_up where
    run: "daily_checkin_loop (h_exp hunter + exp_gain) (h_level hunter) False
            = Inr (new_exp, level, leveled_up)"
    using daily_checkin_loop_returns [OF assms(4)] by blast
  define upd :: "hunter \<Rightarrow> hunter" where "upd = (\<lambda>h. h\<lparr>h_exp := new_exp, h_level := level,
      h_last_checkin := Some now, h_streak := new_streak, h_updated_at := now\<rparr>)"
  define rec :: checkin where "rec = \<lparr>c_id = next_id store, c_user_id = user_id, c_date = today_str now,
      c_streak_after = new_streak, c_created_at = now, c_updated_at = now\<rparr>"
  define store1 where "store1 = store\<lparr>
      hunter_coll := update_one (\<lambda>h. h_id h = h_id hunter) upd (hunter_coll store),
      checkin_coll := checkin_coll store @ [rec],
      next_id := next_id store + 1\<rparr>"
  define resp where "resp = [(''message'', JStr ''Check-in complete''),
      (''exp_gain'', JInt exp_gain), (''streak'', JInt new_streak), (''level'', JInt level),
      (''exp'', JInt new_exp), (''leveled_up'', JBool leveled_up)]"
  have id: "h_id hunter = oid" using find_one_Some [OF assms(2)] by simp
  have res: "daily_checkin now (Some store) user_id = (Inr resp, Some store1)"
    unfolding daily_checkin_def Let_def
    using assms(1,2,3) run [unfolded exp_gain_def new_streak_def]
    by (simp add: upd_def rec_def store1_def resp_def exp_gain_def new_streak_def)
  have "find_one (\<lambda>h. h_id h = oid) (update_one (\<lambda>h. h_id h = oid) upd (hunter_coll store))
          = Some (upd hunter)"
    using assms(2) id by (intro find_one_update_one_same) (simp_all add: upd_def)
  then have found: "find_one (\<lambda>h. h_id h = oid) (hunter_coll store1) = Some (upd hunter)"
    by (simp add: store1_def id)
  have s1: "h_last_checkin hunter = None \<longrightarrow> new_streak = 1"
    by (simp add: new_streak_def)
  have s2: "\<forall>t. h_last_checkin hunter = Some t
                \<and> toordinal (dt_date now) - toordinal (dt_date t) = 1
              \<longrightarrow> new_streak = h_streak hunter + 1"
    by (simp add: new_streak_def)
  have s3: "\<forall>t. h_last_checkin hunter = Some t
                \<and> toordinal (dt_date now) - toordinal (dt_date t) > 1
              \<longrightarrow> new_streak = 1"
    by (simp add: new_streak_def)
  have r: "map_of resp ''streak'' = Some (JInt new_streak)" by (simp add: resp_def)
  have u: "h_streak (upd hunter) = new_streak" by (simp add: upd_def)
  have c: "checkin_coll store1 = checkin_coll store @ [rec]" by (simp add: store1_def)
  have a: "c_streak_after rec = new_streak" by (simp add: rec_def)
  show ?thesis
    apply (rule exI [of _ new_streak], rule exI [of _ resp], rule exI [of _ store1],
        rule exI [of _ "upd hunter"], rule exI [of _ rec])
    using res s1 s2 s3 r found u c a apply (intro conjI)
            apply assumption+
    done
qed

text \<open>
  The check-in of 2024-03-01 after the one of 2024-02-29: the streak goes from 1 to 2.
\<close>

theorem daily_checkin_streak_witness:
  "\<exists>resp store1 hunter1 rec.
     daily_checkin example_now (Some checked_in_store) example_uid = (Inr resp, Some store1)
   \<and> toordinal (dt_date example_now) - toordinal (dt_date example_yesterday) = 1
   \<and> map_of resp ''streak'' = Some (JInt 2)
   \<and> find_one (\<lambda>h. h_id h = 0) (hunter_coll store1) = Some hunter1
   \<and> h_streak hunter1 = 2
   \<and> checkin_coll store1 = checkin_coll checked_in_store @ [rec]
   \<and> c_streak_after rec = 2"
proof -
  let ?h = "example_hunter\<lparr>h_exp := 11, h_streak := 1, h_last_checkin := Some example_yesterday\<rparr>"
  have a: "ObjectId example_uid = Some 0" by (simp add: example_uid_def eval_defs)
  have b: "find_one (\<lambda>h. h_id h = 0) (hunter_coll checked_in_store) = Some ?h"
    by (simp add: checked_in_store_def example_defs eval_defs)
  have c: "map_option (\<lambda>t. isoformat (dt_date t)) (h_last_checkin ?h) \<noteq> Some (today_str example_now)"
    by (simp add: example_defs eval_defs)
  have d: "0 \<le> h_level ?h" by (simp add: example_hunter_def)
  have gap: "toordinal (dt_date example_now) - toordinal (dt_date example_yesterday) = 1"
    by (simp add: example_defs eval_defs)
  from daily_checkin_streak [OF a b c d]
  obtain new_streak resp store1 hunter1 rec where
    r: "daily_checkin example_now (Some checked_in_store) example_uid = (Inr resp, Some store1)"
    and s: "\<forall>t. h_last_checkin ?h = Some t
                \<and> toordinal (dt_date example_now) - toordinal (dt_date t) = 1
              \<longrightarrow> new_streak = h_streak ?h + 1"
    and rest: "map_of resp ''streak'' = Some (JInt new_streak)"
      "find_one (\<lambda>h. h_id h = 0) (hunter_coll store1) = Some hunter1"
      "h_streak hunter1 = new_streak"
      "checkin_coll store1 = checkin_coll checked_in_store @ [rec]"
      "c_streak_after rec = new_streak"
    by blast
  from s gap have two: "new_streak = 2" by simp
  show ?thesis
    apply (rule exI [of _ resp], rule exI [of _ store1], rule exI [of _ hunter1],
        rule exI [of _ rec])
    using r rest gap two apply simp
    done
qed








end
